theory Spec2Isabelle
  imports Main
begin

section \<open>JavaScript values handed to the session store\<close>

text \<open>
  \<open>setAuthToken\<close> passes its argument to \<open>localStorage.setItem\<close> unchecked, so the
  argument ranges over every JavaScript value. The eight language types are kept apart.
  A number, a bigint and an object are represented by what their conversion to a string
  gives: floating-point formatting and the user code run by an object's
  \<open>toString\<close>/\<open>valueOf\<close> are not modelled beyond their outcome. For an object the
  outcome is the string, or the exception: \<open>TypeError\<close> when the object has no usable
  conversion method, \<open>Thrown\<close> when the method itself throws. The conversion of an
  object is taken not to touch the store: an object whose \<open>toString\<close> itself writes to
  \<open>localStorage\<close> is not among the values modelled.
\<close>

datatype error = TypeError | Thrown | QuotaExceededError

datatype jsval =
    JUndefined
  | JNull
  | JBoolean bool
  | JNumber string
  | JBigInt string
  | JString string
  | JSymbol string
  | JObject "error + string"

text \<open>
  The conversion the storage interface applies to a value argument. A symbol has no
  string conversion: the call throws \<open>TypeError\<close>.
\<close>

fun ToString :: "jsval \<Rightarrow> error + string" where
  "ToString JUndefined = Inr ''undefined''"
| "ToString JNull = Inr ''null''"
| "ToString (JBoolean b) = Inr (if b then ''true'' else ''false'')"
| "ToString (JNumber s) = Inr s"
| "ToString (JBigInt s) = Inr s"
| "ToString (JString s) = Inr s"
| "ToString (JSymbol d) = Inl TypeError"
| "ToString (JObject r) = r"

section \<open>The key-value store \<open>localStorage\<close>\<close>

text \<open>
  The store maps keys to string values. It is global in the source; here every function
  takes it as an argument and a writing function returns the new store. The store is
  taken to be available.

  How much the store can hold is the platform's affair, so it is a parameter: \<open>room st k s\<close>
  tells whether the platform accepts the string \<open>s\<close> under the key \<open>k\<close> in the store
  \<open>st\<close>. When it does not, \<open>setItem\<close> throws \<open>QuotaExceededError\<close> and writes nothing.
\<close>

type_synonym storage = "string \<rightharpoonup> string"

type_synonym quota = "storage \<Rightarrow> string \<Rightarrow> string \<Rightarrow> bool"

text \<open>
  A platform that counts characters, seen from a store in which \<open>n\<close> characters are
  still free: the new item fits when its key and value take no more than \<open>n\<close> together
  with what the item it overwrites gives back.
\<close>

definition room_left :: "nat \<Rightarrow> quota" where
  "room_left n st k s =
     (length k + length s \<le> n + (case st k of None \<Rightarrow> 0 | Some old \<Rightarrow> length k + length old))"

definition getItem :: "string \<Rightarrow> storage \<Rightarrow> string option" where
  "getItem k st = st k"

definition setItem :: "quota \<Rightarrow> string \<Rightarrow> jsval \<Rightarrow> storage \<Rightarrow> error + storage" where
  "setItem room k v st =
     (case ToString v of
        Inl e \<Rightarrow> Inl e
      | Inr s \<Rightarrow> if room st k s then Inr (st(k \<mapsto> s)) else Inl QuotaExceededError)"

definition removeItem :: "string \<Rightarrow> storage \<Rightarrow> storage" where
  "removeItem k st = st(k := None)"

section \<open>utils/auth.js\<close>

text \<open>\<open>null\<close>, the value \<open>getItem\<close> returns for a missing key, is \<open>None\<close>.\<close>

definition isAuthenticated :: "storage \<Rightarrow> bool" where
  "isAuthenticated st = (getItem ''authToken'' st \<noteq> None)"

definition setAuthToken :: "quota \<Rightarrow> jsval \<Rightarrow> storage \<Rightarrow> error + storage" where
  "setAuthToken room token st = setItem room ''authToken'' token st"

definition removeAuthToken :: "storage \<Rightarrow> storage" where
  "removeAuthToken st = removeItem ''authToken'' st"

definition getAuthToken :: "storage \<Rightarrow> string option" where
  "getAuthToken st = getItem ''authToken'' st"

section \<open>components/ProtectedRoute.js\<close>

text \<open>
  The component returns either the element \<open><Navigate to="/login" replace />\<close> or its
  \<open>children\<close> prop. The children are opaque to the guard.
\<close>

record navigate_props =
  to :: string
  replace :: bool

datatype 'c element = Navigate navigate_props | Children 'c

definition ProtectedRoute :: "'c \<Rightarrow> storage \<Rightarrow> 'c element" where
  "ProtectedRoute children st =
     (if \<not> isAuthenticated st then Navigate \<lparr>to = ''/login'', replace = True\<rparr>
      else Children children)"

section \<open>Sequences of session-store calls\<close>

datatype call = SetAuthToken jsval | GetAuthToken | RemoveAuthToken | IsAuthenticated

text \<open>
  The store left behind by one call. A call of \<open>setAuthToken\<close> that throws has written
  nothing; the two reading functions write nothing.
\<close>

fun store_after :: "quota \<Rightarrow> call \<Rightarrow> storage \<Rightarrow> storage" where
  "store_after room (SetAuthToken v) st =
     (case setAuthToken room v st of Inl e \<Rightarrow> st | Inr st' \<Rightarrow> st')"
| "store_after room GetAuthToken st = st"
| "store_after room RemoveAuthToken st = removeAuthToken st"
| "store_after room IsAuthenticated st = st"

fun run :: "quota \<Rightarrow> call list \<Rightarrow> storage \<Rightarrow> storage" where
  "run room [] st = st"
| "run room (c # cs) st = run room cs (store_after room c st)"

section \<open>The session history and the redirect\<close>

text \<open>
  Modelled from the spec: the routing library that interprets the \<open>Navigate\<close> element and
  the browser's session history are not part of the sources. The history is the list of
  visited locations with the position of the current one. A push drops the entries
  after the current one and appends the new location; a replace overwrites the current
  entry in place; going back moves one position down when there is one.
\<close>

record history =
  entries :: "string list"
  index :: nat

definition wf_history :: "history \<Rightarrow> bool" where
  "wf_history h = (index h < length (entries h))"

definition current :: "history \<Rightarrow> string option" where
  "current h = (if index h < length (entries h) then Some (entries h ! index h) else None)"

definition push_entry :: "string \<Rightarrow> history \<Rightarrow> history" where
  "push_entry loc h =
     \<lparr>entries = take (Suc (index h)) (entries h) @ [loc], index = Suc (index h)\<rparr>"

definition replace_entry :: "string \<Rightarrow> history \<Rightarrow> history" where
  "replace_entry loc h = h\<lparr>entries := (entries h)[index h := loc]\<rparr>"

definition go_back :: "history \<Rightarrow> history" where
  "go_back h = (if 0 < index h then h\<lparr>index := index h - 1\<rparr> else h)"

text \<open>The locations that pressing back, any number of times, can arrive at.\<close>

definition back_entries :: "history \<Rightarrow> string list" where
  "back_entries h = take (index h) (entries h)"

text \<open>
  Modelled from the spec: rendering an element. A \<open>Navigate\<close> element navigates to its
  target, replacing the current entry when its \<open>replace\<close> prop is set and pushing
  otherwise; rendering children leaves the history alone.
\<close>

fun commit :: "'c element \<Rightarrow> history \<Rightarrow> history" where
  "commit (Navigate p) h = (if replace p then replace_entry (to p) h else push_entry (to p) h)"
| "commit (Children c) h = h"

text \<open>
  An evaluation of the guard for a request of the location \<open>loc\<close>: the request pushes
  \<open>loc\<close>, then what the guard returns is rendered.
\<close>

definition visit_guarded :: "'c \<Rightarrow> storage \<Rightarrow> string \<Rightarrow> history \<Rightarrow> history" where
  "visit_guarded children st loc h = commit (ProtectedRoute children st) (push_entry loc h)"

section \<open>The route guard\<close>

text \<open>
  C1. Whenever \<open>getAuthToken\<close> returns the absent marker, \<open>ProtectedRoute\<close> returns the
  redirect element with target \<open>/login\<close>, and what it returns is not its children.
\<close>

theorem no_token_redirects:
  assumes "getAuthToken st = None"
  shows "ProtectedRoute children st = Navigate \<lparr>to = ''/login'', replace = True\<rparr>
         \<and> ProtectedRoute children st \<noteq> Children children"
  using assms by (simp add: ProtectedRoute_def isAuthenticated_def getAuthToken_def)

theorem no_token_redirects_witness:
  "getAuthToken Map.empty = None
   \<and> ProtectedRoute ''dashboard'' Map.empty = Navigate \<lparr>to = ''/login'', replace = True\<rparr>
   \<and> ProtectedRoute ''dashboard'' Map.empty \<noteq> Children ''dashboard''"
proof -
  have absent: "getAuthToken Map.empty = None"
    by (simp add: getAuthToken_def getItem_def)
  from no_token_redirects [OF absent, of "''dashboard''"] absent show ?thesis
    by simp
qed

text \<open>
  C2. Whenever \<open>getAuthToken\<close> returns a string, whatever the string is, \<open>ProtectedRoute\<close>
  returns exactly its children, hence no redirect element. The token is not looked at.
\<close>

theorem token_present_renders:
  assumes "getAuthToken st = Some t"
  shows "ProtectedRoute children st = Children children
         \<and> (\<forall>p. ProtectedRoute children st \<noteq> Navigate p)"
  using assms by (simp add: ProtectedRoute_def isAuthenticated_def getAuthToken_def)

theorem token_present_renders_witness:
  "getAuthToken [''authToken'' \<mapsto> ''''] = Some ''''
   \<and> ProtectedRoute ''profile'' [''authToken'' \<mapsto> ''''] = Children ''profile''"
proof -
  have present: "getAuthToken [''authToken'' \<mapsto> ''''] = Some ''''"
    by (simp add: getAuthToken_def getItem_def)
  from token_present_renders [OF present, of "''profile''"] present show ?thesis
    by simp
qed

text \<open>
  C10. The guard's result depends on the store only through the presence of the
  \<open>authToken\<close> slot: two stores that agree on presence give the same result for the same
  children, whatever the tokens are.
\<close>

theorem guard_ignores_token_value:
  assumes "(getAuthToken st1 = None) = (getAuthToken st2 = None)"
  shows "ProtectedRoute children st1 = ProtectedRoute children st2"
  using assms by (simp add: ProtectedRoute_def isAuthenticated_def getAuthToken_def)

theorem guard_ignores_token_value_witness:
  "(getAuthToken [''authToken'' \<mapsto> ''eyJhbGciOi''] = None)
     = (getAuthToken [''authToken'' \<mapsto> ''x'', ''theme'' \<mapsto> ''dark''] = None)
   \<and> ProtectedRoute ''quiz'' [''authToken'' \<mapsto> ''eyJhbGciOi'']
     = ProtectedRoute ''quiz'' [''authToken'' \<mapsto> ''x'', ''theme'' \<mapsto> ''dark'']"
proof -
  have agree: "(getAuthToken [''authToken'' \<mapsto> ''eyJhbGciOi''] = None)
     = (getAuthToken [''authToken'' \<mapsto> ''x'', ''theme'' \<mapsto> ''dark''] = None)"
    by (simp add: getAuthToken_def getItem_def)
  from guard_ignores_token_value [OF agree, of "''quiz''"] agree show ?thesis
    by simp
qed

section \<open>The session store\<close>

text \<open>
  C4. In every store, \<open>isAuthenticated\<close> is true exactly when \<open>getAuthToken\<close> does not
  return the absent marker; and it is true for a store whose slot holds any string
  \<open>t\<close> at all, so the value is neither parsed nor validated.
\<close>

theorem isAuthenticated_iff_present:
  "isAuthenticated st = (getAuthToken st \<noteq> None)
   \<and> isAuthenticated (st(''authToken'' \<mapsto> t))"
  by (simp add: isAuthenticated_def getAuthToken_def getItem_def)

text \<open>
  C5, as the claim puts it, fails: the store may have no room for the item. With five
  characters left, \<open>setAuthToken("abc")\<close> throws \<open>QuotaExceededError\<close> and writes nothing,
  so \<open>getAuthToken\<close> still returns the absent marker and \<open>isAuthenticated\<close> is false.
\<close>

theorem write_then_read_full_store_counterexample:
  "setAuthToken (room_left 5) (JString ''abc'') [''quizDraft'' \<mapsto> ''[1,2,3]'']
     = Inl QuotaExceededError
   \<and> getAuthToken (store_after (room_left 5) (SetAuthToken (JString ''abc''))
        [''quizDraft'' \<mapsto> ''[1,2,3]'']) = None
   \<and> \<not> isAuthenticated (store_after (room_left 5) (SetAuthToken (JString ''abc''))
        [''quizDraft'' \<mapsto> ''[1,2,3]''])"
  by (simp add: setAuthToken_def setItem_def room_left_def getAuthToken_def
        isAuthenticated_def getItem_def)

text \<open>
  C5, amended. From any store that has room for the item, \<open>setAuthToken("abc")\<close> returns,
  and in the store it leaves \<open>getAuthToken\<close> gives \<open>"abc"\<close> and \<open>isAuthenticated\<close> is true.
  The same holds for every string \<open>t\<close> the store has room for: the written value is not
  validated.
\<close>

theorem write_then_read:
  "(room st ''authToken'' ''abc'' \<longrightarrow>
      (\<exists>st'. setAuthToken room (JString ''abc'') st = Inr st'
          \<and> getAuthToken st' = Some ''abc'' \<and> isAuthenticated st'))
   \<and> (room st ''authToken'' t \<longrightarrow>
      (\<exists>st'. setAuthToken room (JString t) st = Inr st'
          \<and> getAuthToken st' = Some t \<and> isAuthenticated st'))"
  by (simp add: setAuthToken_def setItem_def getAuthToken_def isAuthenticated_def getItem_def)

theorem write_then_read_witness:
  "room_left 5000 [''authToken'' \<mapsto> ''old''] ''authToken'' ''abc''
   \<and> (\<exists>st'. setAuthToken (room_left 5000) (JString ''abc'') [''authToken'' \<mapsto> ''old'']
                = Inr st'
          \<and> getAuthToken st' = Some ''abc'' \<and> isAuthenticated st')"
proof -
  have fits: "room_left 5000 [''authToken'' \<mapsto> ''old''] ''authToken'' ''abc''"
    by (simp add: room_left_def)
  from write_then_read [of "room_left 5000" "[''authToken'' \<mapsto> ''old'']" "''abc''"] fits
  show ?thesis by blast
qed

text \<open>
  C6. From any store, \<open>isAuthenticated\<close> is false after one \<open>removeAuthToken\<close> and after
  a second one, the second call changes nothing, and on a store whose slot is already
  empty the call is a no-op. \<open>removeAuthToken\<close> has no throwing path: it returns a store
  for every store.
\<close>

theorem removeAuthToken_idempotent:
  "\<not> isAuthenticated (removeAuthToken st)
   \<and> \<not> isAuthenticated (removeAuthToken (removeAuthToken st))
   \<and> removeAuthToken (removeAuthToken st) = removeAuthToken st
   \<and> (getAuthToken st = None \<longrightarrow> removeAuthToken st = st)"
  by (auto simp add: removeAuthToken_def removeItem_def isAuthenticated_def
        getAuthToken_def getItem_def)

theorem removeAuthToken_idempotent_witness:
  "getAuthToken [''theme'' \<mapsto> ''dark''] = None
   \<and> removeAuthToken [''theme'' \<mapsto> ''dark''] = [''theme'' \<mapsto> ''dark'']
   \<and> \<not> isAuthenticated (removeAuthToken [''theme'' \<mapsto> ''dark''])"
proof -
  have empty_slot: "getAuthToken [''theme'' \<mapsto> ''dark''] = None"
    by (simp add: getAuthToken_def getItem_def)
  from removeAuthToken_idempotent [of "[''theme'' \<mapsto> ''dark'']"] empty_slot
  show ?thesis by blast
qed

text \<open>
  C7, as the claim puts it, fails at its first step: on a store with no room left,
  \<open>setAuthToken("tok1")\<close> throws \<open>QuotaExceededError\<close> and \<open>isAuthenticated\<close> is false
  afterwards.
\<close>

theorem end_to_end_no_room_counterexample:
  "setAuthToken (room_left 0) (JString ''tok1'') Map.empty = Inl QuotaExceededError
   \<and> \<not> isAuthenticated (store_after (room_left 0) (SetAuthToken (JString ''tok1'')) Map.empty)"
  by (simp add: setAuthToken_def setItem_def room_left_def isAuthenticated_def getItem_def)

text \<open>
  C7, amended. From any store that has room for the item: \<open>setAuthToken("tok1")\<close> returns
  and \<open>isAuthenticated\<close> is then true; after \<open>removeAuthToken\<close> it is false, and the guard,
  given any children (the profile page, say), returns the redirect to \<open>/login\<close>.
\<close>

theorem end_to_end:
  assumes "room st ''authToken'' ''tok1''"
  shows "\<exists>st1. setAuthToken room (JString ''tok1'') st = Inr st1
     \<and> isAuthenticated st1
     \<and> \<not> isAuthenticated (removeAuthToken st1)
     \<and> ProtectedRoute children (removeAuthToken st1)
         = Navigate \<lparr>to = ''/login'', replace = True\<rparr>"
  using assms
  by (simp add: setAuthToken_def setItem_def removeAuthToken_def removeItem_def
        isAuthenticated_def getItem_def ProtectedRoute_def)

theorem end_to_end_witness:
  "room_left 5000 Map.empty ''authToken'' ''tok1''
   \<and> (\<exists>st1. setAuthToken (room_left 5000) (JString ''tok1'') Map.empty = Inr st1
     \<and> isAuthenticated st1
     \<and> \<not> isAuthenticated (removeAuthToken st1)
     \<and> ProtectedRoute ''profile'' (removeAuthToken st1)
         = Navigate \<lparr>to = ''/login'', replace = True\<rparr>)"
proof -
  have fits: "room_left 5000 Map.empty ''authToken'' ''tok1''"
    by (simp add: room_left_def)
  from end_to_end [where room = "room_left 5000" and st = Map.empty
      and children = "''profile''", OF fits] fits
  show ?thesis
    by blast
qed

text \<open>
  Every call leaves all slots other than \<open>authToken\<close> as they were.
\<close>

lemma store_after_other_slots:
  "(store_after room c st)(''authToken'' := None) = st(''authToken'' := None)"
  by (cases c)
    (auto simp add: setAuthToken_def setItem_def removeAuthToken_def removeItem_def
       split: sum.splits if_splits)

lemma run_other_slots:
  "(run room cs st)(''authToken'' := None) = st(''authToken'' := None)"
proof (induction cs arbitrary: st)
  case Nil
  show ?case by simp
next
  case (Cons c cs)
  have "(run room (c # cs) st)(''authToken'' := None)
          = (store_after room c st)(''authToken'' := None)"
    by (simp only: run.simps Cons.IH)
  then show ?case
    by (simp only: store_after_other_slots)
qed

lemma run_dom: "dom (run room cs st) \<subseteq> insert ''authToken'' (dom st)"
proof
  fix k
  assume k: "k \<in> dom (run room cs st)"
  show "k \<in> insert ''authToken'' (dom st)"
  proof (cases "k = ''authToken''")
    case True
    then show ?thesis by simp
  next
    case False
    have "((run room cs st)(''authToken'' := None)) k = (st(''authToken'' := None)) k"
      by (simp only: run_other_slots)
    with False have "run room cs st k = st k" by simp
    with k show ?thesis by (auto simp add: dom_def)
  qed
qed

text \<open>
  C8. Every session-store function reads or writes the one slot \<open>authToken\<close>: whatever
  sequence of calls is made, and whatever room the store has, all other slots of the
  store are as before, and a store that starts empty holds at most one entry, under the
  key \<open>authToken\<close>.
\<close>

theorem single_token_slot:
  "(run room cs st)(''authToken'' := None) = st(''authToken'' := None)
   \<and> dom (run room cs st) \<subseteq> insert ''authToken'' (dom st)
   \<and> dom (run room cs Map.empty) \<subseteq> {''authToken''}
   \<and> card (dom (run room cs Map.empty)) \<le> 1"
proof -
  have sub: "dom (run room cs Map.empty) \<subseteq> {''authToken''}"
    using run_dom [of room cs Map.empty] by simp
  have "card (dom (run room cs Map.empty)) \<le> card {''authToken''}"
    by (rule card_mono) (use sub in simp_all)
  then have "card (dom (run room cs Map.empty)) \<le> 1" by simp
  with sub show ?thesis
    by (simp add: run_other_slots run_dom)
qed

text \<open>
  C9, as the claim puts it, fails in two ways. A symbol has no string conversion: the
  call throws \<open>TypeError\<close> and an empty store with room to spare stays empty. And an
  argument that does convert may not fit: with three characters left, \<open>setAuthToken(null)\<close>
  throws \<open>QuotaExceededError\<close> and the store stays unauthenticated.
\<close>

theorem setAuthToken_any_argument_counterexample:
  "setAuthToken (room_left 5000) (JSymbol ''token'') Map.empty = Inl TypeError
   \<and> \<not> isAuthenticated (store_after (room_left 5000) (SetAuthToken (JSymbol ''token'')) Map.empty)
   \<and> setAuthToken (room_left 3) JNull Map.empty = Inl QuotaExceededError
   \<and> \<not> isAuthenticated (store_after (room_left 3) (SetAuthToken JNull) Map.empty)"
  by (simp add: setAuthToken_def setItem_def room_left_def isAuthenticated_def getItem_def)

text \<open>
  C9, amended. For every argument whose conversion to a string returns some \<open>s\<close>
  (\<open>undefined\<close>, \<open>null\<close>, booleans, numbers, bigints, strings, and objects whose conversion
  returns a string without touching the store), and every store that has room for \<open>s\<close>,
  after \<open>setAuthToken\<close> the slot holds \<open>s\<close> and \<open>isAuthenticated\<close> is true. For \<open>null\<close>
  and \<open>undefined\<close> the stored strings are \<open>"null"\<close> and \<open>"undefined"\<close>.
\<close>

theorem setAuthToken_coerces:
  assumes "ToString v = Inr s" and "room st ''authToken'' s"
  shows "getAuthToken (store_after room (SetAuthToken v) st) = Some s
         \<and> isAuthenticated (store_after room (SetAuthToken v) st)
         \<and> ToString JNull = Inr ''null'' \<and> ToString JUndefined = Inr ''undefined''"
  using assms
  by (simp add: setAuthToken_def setItem_def getAuthToken_def isAuthenticated_def getItem_def)

theorem setAuthToken_coerces_witness:
  "ToString JNull = Inr ''null''
   \<and> room_left 5000 Map.empty ''authToken'' ''null''
   \<and> getAuthToken (store_after (room_left 5000) (SetAuthToken JNull) Map.empty) = Some ''null''
   \<and> isAuthenticated (store_after (room_left 5000) (SetAuthToken JNull) Map.empty)"
proof -
  have conv: "ToString JNull = Inr ''null''" by simp
  have fits: "room_left 5000 Map.empty ''authToken'' ''null''"
    by (simp add: room_left_def)
  from setAuthToken_coerces [where v = JNull and s = "''null''"
      and room = "room_left 5000" and st = Map.empty, OF conv fits] conv fits
  show ?thesis
    by (simp del: store_after.simps)
qed

section \<open>The redirect and the session history\<close>

text \<open>
  What the \<open>replace\<close> prop avoids: had the redirect been pushed, the requested location
  would be the entry right behind \<open>/login\<close>.
\<close>

lemma pushed_redirect_keeps_entry:
  assumes "wf_history h"
  shows "current (go_back (commit (Navigate \<lparr>to = ''/login'', replace = False\<rparr>)
           (push_entry loc h))) = Some loc"
proof -
  define bs where "bs = take (Suc (index h)) (entries h)"
  have "length bs = Suc (index h)"
    using assms by (simp add: bs_def wf_history_def)
  then show ?thesis
    by (simp add: push_entry_def go_back_def current_def nth_append flip: bs_def)
qed

text \<open>
  C3, as the claim puts it, fails: replacing the entry of the request does not remove
  earlier entries. A user whose history holds \<open>/dashboard\<close> from an earlier visit, and who
  requests it again without a token, is redirected to \<open>/login\<close>; pressing back arrives at
  the earlier \<open>/dashboard\<close> entry.
\<close>

theorem redirect_earlier_entry_counterexample:
  "getAuthToken Map.empty = None
   \<and> wf_history \<lparr>entries = [''/dashboard''], index = 0\<rparr>
   \<and> current (visit_guarded ''dashboard'' Map.empty ''/dashboard''
        \<lparr>entries = [''/dashboard''], index = 0\<rparr>) = Some ''/login''
   \<and> current (go_back (visit_guarded ''dashboard'' Map.empty ''/dashboard''
        \<lparr>entries = [''/dashboard''], index = 0\<rparr>)) = Some ''/dashboard''
   \<and> ''/dashboard'' \<in> set (back_entries (visit_guarded ''dashboard'' Map.empty ''/dashboard''
        \<lparr>entries = [''/dashboard''], index = 0\<rparr>))"
  by (simp add: getAuthToken_def getItem_def wf_history_def visit_guarded_def
        ProtectedRoute_def isAuthenticated_def push_entry_def replace_entry_def
        go_back_def current_def back_entries_def)

text \<open>
  C3, amended. When the slot is absent, the element the guard returns has \<open>replace\<close> set,
  and rendering it overwrites the current history entry with \<open>/login\<close>. So after a request
  of a guarded location \<open>loc\<close> from a history \<open>h\<close>, the current entry is \<open>/login\<close>, no
  entry was appended for the redirect, the entries behind the current one are those of
  \<open>h\<close> up to its current entry, and pressing back arrives where the user was before the
  request. The requested location is therefore not among the entries that back
  navigation can arrive at, unless it already was the current or an earlier entry
  before the request.
\<close>

theorem redirect_replaces_entry:
  assumes "getAuthToken st = None" and "wf_history h"
  shows "commit (ProtectedRoute children st) h = replace_entry ''/login'' h
         \<and> current (visit_guarded children st loc h) = Some ''/login''
         \<and> length (entries (visit_guarded children st loc h))
             = length (entries (push_entry loc h))
         \<and> back_entries (visit_guarded children st loc h)
             = take (Suc (index h)) (entries h)
         \<and> current (go_back (visit_guarded children st loc h)) = current h
         \<and> (loc \<notin> set (take (Suc (index h)) (entries h))
              \<longrightarrow> loc \<notin> set (back_entries (visit_guarded children st loc h)))"
proof -
  have guard: "ProtectedRoute children st = Navigate \<lparr>to = ''/login'', replace = True\<rparr>"
    using assms(1) by (simp add: ProtectedRoute_def isAuthenticated_def getAuthToken_def)
  define bs where "bs = take (Suc (index h)) (entries h)"
  have i: "index h < length (entries h)"
    using assms(2) by (simp add: wf_history_def)
  then have len: "length bs = Suc (index h)"
    by (simp add: bs_def)
  have last_bs: "bs ! index h = entries h ! index h"
    by (simp add: bs_def)
  have "(bs @ [loc])[Suc (index h) := ''/login''] = bs @ [''/login'']"
    using len by (simp add: list_update_append)
  then have visit: "visit_guarded children st loc h
      = \<lparr>entries = bs @ [''/login''], index = Suc (index h)\<rparr>"
    by (simp add: visit_guarded_def guard replace_entry_def push_entry_def bs_def)
  have behind: "back_entries (visit_guarded children st loc h) = bs"
    using len by (simp add: visit back_entries_def)
  have cur: "current (visit_guarded children st loc h) = Some ''/login''"
    using len by (simp add: visit current_def nth_append)
  have prev: "current (go_back (visit_guarded children st loc h)) = current h"
    using i len last_bs by (simp add: visit go_back_def current_def nth_append)
  have size: "length (entries (visit_guarded children st loc h))
      = length (entries (push_entry loc h))"
    using len by (simp add: visit push_entry_def bs_def)
  from guard behind cur prev size show ?thesis
    by (simp add: bs_def)
qed

theorem redirect_replaces_entry_witness:
  "getAuthToken Map.empty = None
   \<and> wf_history \<lparr>entries = [''/login''], index = 0\<rparr>
   \<and> ''/dashboard'' \<notin> set (take (Suc 0) [''/login''])
   \<and> current (visit_guarded ''dashboard'' Map.empty ''/dashboard''
         \<lparr>entries = [''/login''], index = 0\<rparr>) = Some ''/login''
   \<and> ''/dashboard'' \<notin> set (back_entries (visit_guarded ''dashboard'' Map.empty ''/dashboard''
         \<lparr>entries = [''/login''], index = 0\<rparr>))"
proof -
  have absent: "getAuthToken Map.empty = None"
    by (simp add: getAuthToken_def getItem_def)
  have wf: "wf_history \<lparr>entries = [''/login''], index = 0\<rparr>"
    by (simp add: wf_history_def)
  from redirect_replaces_entry [OF absent wf, of "''dashboard''" "''/dashboard''"] absent wf
  show ?thesis by simp
qed

end
